theory Spec2Isabelle
  imports Main
begin

section \<open>Configuration constants\<close>

text \<open>
  \<^verbatim>\<open>api-helpers\<close> imports \<^verbatim>\<open>MAX_REQUESTS\<close> and \<^verbatim>\<open>STORAGE_WINDOW_MS\<close> from
  \<^verbatim>\<open>@/app/config/constants\<close>. Both limiters read the same two constants, so the model
  passes them around as one record. Timestamps are the integer milliseconds returned by
  \<^verbatim>\<open>Date.now()\<close>; every function that reads the clock takes the reading as the
  argument \<open>now\<close>.
\<close>

record config =
  MAX_REQUESTS :: int
  STORAGE_WINDOW_MS :: int

section \<open>ServerRateLimiter\<close>

text \<open>
  \<^verbatim>\<open>
  interface RateLimitEntry { count: number; resetTime: number; }
  private static store = new Map<string, RateLimitEntry>();
  \<close>
\<close>

record RateLimitEntry =
  count :: int
  resetTime :: int

type_synonym store = "string \<rightharpoonup> RateLimitEntry"

text \<open>
  \<^verbatim>\<open>
  static checkLimit(ip: string): boolean {
    const now = Date.now();
    const entry = this.store.get(ip);
    if (!entry || now > entry.resetTime) {
      this.store.set(ip, { count: 1, resetTime: now + STORAGE_WINDOW_MS });
      return true;
    }
    if (entry.count >= MAX_REQUESTS) { return false; }
    entry.count++;
    return true;
  }
  \<close>
  The function returns the answer together with the store it leaves behind.
\<close>

definition checkLimit :: "config \<Rightarrow> int \<Rightarrow> string \<Rightarrow> store \<Rightarrow> bool \<times> store" where
  "checkLimit cfg now ip s =
     (case s ip of
        None \<Rightarrow> (True, s(ip \<mapsto> \<lparr>count = 1, resetTime = now + STORAGE_WINDOW_MS cfg\<rparr>))
      | Some entry \<Rightarrow>
          if now > resetTime entry
          then (True, s(ip \<mapsto> \<lparr>count = 1, resetTime = now + STORAGE_WINDOW_MS cfg\<rparr>))
          else if count entry \<ge> MAX_REQUESTS cfg then (False, s)
          else (True, s(ip \<mapsto> entry\<lparr>count := count entry + 1\<rparr>)))"

text \<open>
  \<^verbatim>\<open>
  static getRemaining(ip: string): number {
    const entry = this.store.get(ip);
    if (!entry || Date.now() > entry.resetTime) { return MAX_REQUESTS; }
    return Math.max(0, MAX_REQUESTS - entry.count);
  }
  \<close>
\<close>

definition getRemaining :: "config \<Rightarrow> int \<Rightarrow> string \<Rightarrow> store \<Rightarrow> int" where
  "getRemaining cfg now ip s =
     (case s ip of
        None \<Rightarrow> MAX_REQUESTS cfg
      | Some entry \<Rightarrow>
          if now > resetTime entry then MAX_REQUESTS cfg
          else max 0 (MAX_REQUESTS cfg - count entry))"

text \<open>
  \<^verbatim>\<open>
  static cleanup() {
    const now = Date.now();
    for (const [ip, entry] of this.store.entries()) {
      if (now > entry.resetTime) { this.store.delete(ip); }
    }
  }
  \<close>
  The sweep that \<^verbatim>\<open>setInterval\<close> runs every five minutes.
\<close>

definition cleanup :: "int \<Rightarrow> store \<Rightarrow> store" where
  "cleanup now s =
     (\<lambda>ip. case s ip of
             None \<Rightarrow> None
           | Some entry \<Rightarrow> if now > resetTime entry then None else Some entry)"

text \<open>
  A run of \<^verbatim>\<open>checkLimit\<close> calls for one key, one per clock reading of the list, in
  order. \<open>answers\<close> collects the returned booleans, \<open>final_store\<close> is the store after
  the last call.
\<close>

fun final_store :: "config \<Rightarrow> string \<Rightarrow> int list \<Rightarrow> store \<Rightarrow> store" where
  "final_store cfg ip [] s = s"
| "final_store cfg ip (t # ts) s = final_store cfg ip ts (snd (checkLimit cfg t ip s))"

fun answers :: "config \<Rightarrow> string \<Rightarrow> int list \<Rightarrow> store \<Rightarrow> bool list" where
  "answers cfg ip [] s = []"
| "answers cfg ip (t # ts) s =
     fst (checkLimit cfg t ip s) # answers cfg ip ts (snd (checkLimit cfg t ip s))"

section \<open>ClientRateLimiter\<close>

text \<open>
  The client-side limiter keeps the timestamps of the allowed requests as a JSON array
  under the \<^verbatim>\<open>localStorage\<close> key \<^verbatim>\<open>translation_requests\<close>. The model stores the parsed
  array (a list of timestamps) under the key; a missing item reads as the empty array,
  as \<^verbatim>\<open>getItem(...) || '[]'\<close> does.
  \<^verbatim>\<open>
  static checkLimit(): boolean {
    const now = Date.now();
    const requests = JSON.parse(localStorage.getItem('translation_requests') || '[]');
    const validRequests = requests.filter(
      (timestamp: number) => now - timestamp < STORAGE_WINDOW_MS);
    if (validRequests.length >= MAX_REQUESTS) { return false; }
    validRequests.push(now);
    localStorage.setItem('translation_requests', JSON.stringify(validRequests));
    return true;
  }
  \<close>
\<close>

type_synonym localStorage = "string \<rightharpoonup> int list"

definition getItem_requests :: "localStorage \<Rightarrow> int list" where
  "getItem_requests ls =
     (case ls ''translation_requests'' of None \<Rightarrow> [] | Some requests \<Rightarrow> requests)"

definition ClientRateLimiter_checkLimit ::
  "config \<Rightarrow> int \<Rightarrow> localStorage \<Rightarrow> bool \<times> localStorage" where
  "ClientRateLimiter_checkLimit cfg now ls =
     (let requests = getItem_requests ls;
          validRequests = filter (\<lambda>timestamp. now - timestamp < STORAGE_WINDOW_MS cfg) requests
      in if int (length validRequests) \<ge> MAX_REQUESTS cfg then (False, ls)
         else (True, ls(''translation_requests'' \<mapsto> validRequests @ [now])))"

text \<open>
  \<^verbatim>\<open>
  static getRemainingRequests(): number {
    const now = Date.now();
    const requests = JSON.parse(localStorage.getItem('translation_requests') || '[]');
    const validRequests = requests.filter(
      (timestamp: number) => now - timestamp < STORAGE_WINDOW_MS);
    return Math.max(0, MAX_REQUESTS - validRequests.length);
  }
  \<close>
\<close>

definition getRemainingRequests :: "config \<Rightarrow> int \<Rightarrow> localStorage \<Rightarrow> int" where
  "getRemainingRequests cfg now ls =
     (let requests = getItem_requests ls;
          validRequests = filter (\<lambda>timestamp. now - timestamp < STORAGE_WINDOW_MS cfg) requests
      in max 0 (MAX_REQUESTS cfg - int (length validRequests)))"

text \<open>A run of client-side checks, one per clock reading, as for the server.\<close>

fun client_final :: "config \<Rightarrow> int list \<Rightarrow> localStorage \<Rightarrow> localStorage" where
  "client_final cfg [] ls = ls"
| "client_final cfg (t # ts) ls =
     client_final cfg ts (snd (ClientRateLimiter_checkLimit cfg t ls))"

fun client_answers :: "config \<Rightarrow> int list \<Rightarrow> localStorage \<Rightarrow> bool list" where
  "client_answers cfg [] ls = []"
| "client_answers cfg (t # ts) ls =
     fst (ClientRateLimiter_checkLimit cfg t ls)
       # client_answers cfg ts (snd (ClientRateLimiter_checkLimit cfg t ls))"

section \<open>ApiCache\<close>

text \<open>
  \<^verbatim>\<open>
  class ApiCache {
    private cache = new Map<string, { data: any; timestamp: number; ttl: number }>();
    set(key: string, data: any, ttl: number = 300000): void {
      this.cache.set(key, { data, timestamp: Date.now(), ttl });
    }
    get(key: string): any | null {
      const item = this.cache.get(key);
      if (!item) { return null; }
      if (Date.now() - item.timestamp > item.ttl) {
        this.cache.delete(key);
        return null;
      }
      return item.data;
    }
    clear(): void { this.cache.clear(); }
    delete(key: string): boolean { return this.cache.delete(key); }
  }
  \<close>
  The payload type is a parameter. \<^verbatim>\<open>get\<close> returns \<open>None\<close> where the code returns
  \<^verbatim>\<open>null\<close> for a miss and \<open>Some\<close> of the stored data otherwise, together with the map it
  leaves behind. An omitted \<^verbatim>\<open>ttl\<close> argument is \<open>None\<close> and takes the default 300000.
\<close>

record 'a CacheItem =
  data :: 'a
  timestamp :: int
  ttl :: int

type_synonym 'a cache = "string \<rightharpoonup> 'a CacheItem"

definition ApiCache_set :: "int \<Rightarrow> string \<Rightarrow> 'a \<Rightarrow> int option \<Rightarrow> 'a cache \<Rightarrow> 'a cache" where
  "ApiCache_set now key d ttl_arg c =
     c(key \<mapsto> \<lparr>data = d, timestamp = now,
                 ttl = (case ttl_arg of None \<Rightarrow> 300000 | Some n \<Rightarrow> n)\<rparr>)"

definition ApiCache_get :: "int \<Rightarrow> string \<Rightarrow> 'a cache \<Rightarrow> 'a option \<times> 'a cache" where
  "ApiCache_get now key c =
     (case c key of
        None \<Rightarrow> (None, c)
      | Some item \<Rightarrow>
          if now - timestamp item > ttl item then (None, c(key := None))
          else (Some (data item), c))"

definition ApiCache_clear :: "'a cache \<Rightarrow> 'a cache" where
  "ApiCache_clear c = Map.empty"

definition ApiCache_delete :: "string \<Rightarrow> 'a cache \<Rightarrow> bool \<times> 'a cache" where
  "ApiCache_delete key c = (c key \<noteq> None, c(key := None))"

text \<open>
  The operations a caller can issue, each stamped with the clock reading at which it
  runs, and the cache after a sequence of them.
\<close>

datatype 'a cache_op =
    Set string 'a "int option"
  | Get string
  | Delete string
  | Clear

fun cache_step :: "int \<times> 'a cache_op \<Rightarrow> 'a cache \<Rightarrow> 'a cache" where
  "cache_step (now, Set key d ttl_arg) c = ApiCache_set now key d ttl_arg c"
| "cache_step (now, Get key) c = snd (ApiCache_get now key c)"
| "cache_step (now, Delete key) c = snd (ApiCache_delete key c)"
| "cache_step (now, Clear) c = ApiCache_clear c"

fun sets_key :: "string \<Rightarrow> 'a cache_op \<Rightarrow> bool" where
  "sets_key k (Set key d ttl_arg) = (key = k)"
| "sets_key k _ = False"

section \<open>retryRequest\<close>

text \<open>
  \<^verbatim>\<open>
  export async function retryRequest<T>(
    requestFn: () => Promise<T>, maxRetries: number = 3, delay: number = 1000
  ): Promise<T> {
    let lastError: Error;
    for (let attempt = 1; attempt <= maxRetries; attempt++) {
      try {
        return await requestFn();
      } catch (error) {
        lastError = error instanceof Error ? error : new Error('Unknown error');
        if (attempt === maxRetries) { throw lastError; }
        const waitTime = delay * 2 ** (attempt - 1);
        await new Promise((resolve) => setTimeout(resolve, waitTime));
      }
    }
    throw new Error(lastError!.message);
  }
  \<close>
  An \<^verbatim>\<open>Error\<close> instance is its constructor and message. A rejection of the operation
  is either an \<^verbatim>\<open>Error\<close> instance or some other thrown value. The operation is an
  effectful thunk: \<open>requestFn k\<close> is the outcome of its \<open>k\<close>-th invocation
  (\<open>k = 1, 2, \<dots>\<close>). The result records what the returned promise settles to, the
  \<^verbatim>\<open>setTimeout\<close> waits in the order they were performed, and how often the operation
  was invoked. \<^verbatim>\<open>maxRetries\<close> and \<^verbatim>\<open>delay\<close> are integers.
\<close>

datatype js_error = Error (message: string) | TypeError (message: string)

datatype thrown = ErrorInstance js_error | NotAnError

datatype 'a outcome = is_Resolved: Resolved 'a | is_Rejected: Rejected (thrown_value: thrown)

record 'a retry_result =
  result :: "js_error + 'a"
  waits :: "int list"
  calls :: nat

text \<open>
  Reading \<^verbatim>\<open>.message\<close> of a variable that was never assigned: the runtime throws a
  \<^verbatim>\<open>TypeError\<close>; the wording of its message is the engine's.
\<close>

definition undefined_dereference :: js_error where
  "undefined_dereference = TypeError ''Cannot read properties of undefined''"

text \<open>\<^verbatim>\<open>error instanceof Error ? error : new Error('Unknown error')\<close>\<close>

fun toError :: "thrown \<Rightarrow> js_error" where
  "toError (ErrorInstance e) = e"
| "toError NotAnError = Error ''Unknown error''"

text \<open>
  The loop, from the head of an iteration: \<open>attempt\<close> is the loop variable,
  \<open>lastError\<close> the variable of that name (\<open>None\<close> while unassigned), \<open>ws\<close> the waits
  performed so far and \<open>n\<close> the invocations made so far. The last branch is the
  statement after the loop.
\<close>

function retry_loop ::
  "(nat \<Rightarrow> 'a outcome) \<Rightarrow> int \<Rightarrow> int \<Rightarrow> int \<Rightarrow> js_error option \<Rightarrow> int list \<Rightarrow> nat
     \<Rightarrow> 'a retry_result" where
  "retry_loop requestFn maxRetries delay attempt lastError ws n =
     (if attempt \<le> maxRetries then
        (case requestFn (Suc n) of
           Resolved v \<Rightarrow> \<lparr>result = Inr v, waits = ws, calls = Suc n\<rparr>
         | Rejected error \<Rightarrow>
             if attempt = maxRetries
             then \<lparr>result = Inl (toError error), waits = ws, calls = Suc n\<rparr>
             else retry_loop requestFn maxRetries delay (attempt + 1) (Some (toError error))
                    (ws @ [delay * 2 ^ nat (attempt - 1)]) (Suc n))
      else \<lparr>result = Inl (case lastError of
                             None \<Rightarrow> undefined_dereference
                           | Some e \<Rightarrow> Error (message e)),
            waits = ws, calls = n\<rparr>)"
  by pat_completeness auto
termination
  by (relation "measure (\<lambda>(requestFn, maxRetries, delay, attempt, lastError, ws, n).
        nat (maxRetries + 1 - attempt))") auto

declare retry_loop.simps [simp del]

definition retryRequest :: "(nat \<Rightarrow> 'a outcome) \<Rightarrow> int \<Rightarrow> int \<Rightarrow> 'a retry_result" where
  "retryRequest requestFn maxRetries delay = retry_loop requestFn maxRetries delay 1 None [] 0"

text \<open>The call with both optional arguments omitted.\<close>

definition retryRequest_default :: "(nat \<Rightarrow> 'a outcome) \<Rightarrow> 'a retry_result" where
  "retryRequest_default requestFn = retryRequest requestFn 3 1000"

text \<open>The backoff schedule: the wait after failed attempt \<open>i\<close> is \<open>delay * 2 ^ (i - 1)\<close>.\<close>

definition backoff :: "int \<Rightarrow> nat \<Rightarrow> nat \<Rightarrow> int list" where
  "backoff delay a b = map (\<lambda>i. delay * 2 ^ (i - 1)) [a..<b]"

section \<open>generateCacheKey\<close>


text \<open>\<^verbatim>\<open>Array.prototype.join\<close> on strings.\<close>

fun array_join :: "string \<Rightarrow> string list \<Rightarrow> string" where
  "array_join sep [] = []"
| "array_join sep [x] = x"
| "array_join sep (x # y # ys) = x @ sep @ array_join sep (y # ys)"

definition digit_char :: "nat \<Rightarrow> char" where
  "digit_char d = ''0123456789'' ! d"

fun digits :: "nat \<Rightarrow> string" where
  "digits n = (if n < 10 then [digit_char n] else digits (n div 10) @ [digit_char (n mod 10)])"

declare digits.simps [simp del]








section \<open>InputValidator\<close>

text \<open>
  \<^verbatim>\<open>
  static validateText(text: string, max_text_length: number): { isValid: boolean; error?: string } {
    if (!text || text.trim().length === 0) {
      return { isValid: false, error: 'Please enter some text to translate' };
    }
    if (text.length > max_text_length) {
      return { isValid: false,
               error: `Text too long. Maximum ${max_text_length} characters allowed.` };
    }
    const suspiciousPatterns = [ ... ];
    for (const pattern of suspiciousPatterns) {
      if (pattern.test(text)) {
        return { isValid: false, error: 'Potentially malicious content detected' };
      }
    }
    const spamPatterns = [ ... ];
    for (const pattern of spamPatterns) {
      if (pattern.test(text)) {
        return { isValid: false, error: 'Content contains prohibited patterns' };
      }
    }
    return { isValid: true };
  }
  \<close>
  The handler passes whatever the request body holds under \<^verbatim>\<open>input\<close>, so the argument
  is a value that need not be a string: \<open>Falsy\<close> stands for \<^verbatim>\<open>undefined\<close>, \<^verbatim>\<open>null\<close>,
  \<^verbatim>\<open>0\<close> and \<^verbatim>\<open>false\<close> (the empty string is \<open>Text []\<close>), \<open>NonString\<close> for any other
  value that is not a string, on which \<^verbatim>\<open>text.trim\<close> is not a function. The two
  arrays of regular expressions are parameters: one predicate per pattern, the
  predicate being \<^verbatim>\<open>pattern.test\<close> of the JavaScript runtime, in the order of the
  array. The returned object is \<open>Valid\<close> for \<^verbatim>\<open>{ isValid: true }\<close> and \<open>Invalid msg\<close>
  for \<^verbatim>\<open>{ isValid: false, error: msg }\<close>; the function builds no other shape.
\<close>

datatype input_value = Falsy | Text string | NonString

datatype validation = Valid | Invalid string

text \<open>The white space that \<^verbatim>\<open>String.prototype.trim\<close> strips, among one-byte characters.\<close>

definition is_white_space :: "char \<Rightarrow> bool" where
  "is_white_space c = ((of_char c :: nat) \<in> set [9, 10, 11, 12, 13, 32, 160])"

definition validateText ::
  "(string \<Rightarrow> bool) list \<Rightarrow> (string \<Rightarrow> bool) list \<Rightarrow> input_value \<Rightarrow> nat
     \<Rightarrow> thrown + validation" where
  "validateText suspiciousPatterns spamPatterns text max_text_length =
     (case text of
        Falsy \<Rightarrow> Inr (Invalid ''Please enter some text to translate'')
      | NonString \<Rightarrow> Inl (ErrorInstance (TypeError ''text.trim is not a function''))
      | Text t \<Rightarrow>
          if t = [] \<or> list_all is_white_space t
            then Inr (Invalid ''Please enter some text to translate'')
          else if length t > max_text_length
            then Inr (Invalid (''Text too long. Maximum '' @ digits max_text_length
                               @ '' characters allowed.''))
          else if list_ex (\<lambda>pattern. pattern t) suspiciousPatterns
            then Inr (Invalid ''Potentially malicious content detected'')
          else if list_ex (\<lambda>pattern. pattern t) spamPatterns
            then Inr (Invalid ''Content contains prohibited patterns'')
          else Inr Valid)"

section \<open>The question endpoint handler\<close>

text \<open>
  \<^verbatim>\<open>
  export async function POST(request: NextRequest) {
    try {
      const ip = request.headers.get('x-forwarded-for')
        || request.headers.get('x-real-ip') || 'unknown';
      if (!ServerRateLimiter.checkLimit(ip)) {
        return NextResponse.json(
          { error: 'Rate limit exceeded. Please try again later.' }, { status: 429 });
      }
      const { input } = await request.json();
      const textValidation = InputValidator.validateText(input, 2000);
      if (!textValidation.isValid) {
        return NextResponse.json({ error: textValidation.error }, { status: 400 });
      }
      const apiKey = process.env.OPENAI_API_KEY;
      if (!apiKey) {
        return NextResponse.json(
          { error: 'Translation service temporarily unavailable' }, { status: 500 });
      }
      const client = new OpenAI({ apiKey });
      const moderatedText = await client.moderations.create({ input });
      const { flagged, categories } = moderatedText.results[0];
      if (flagged) {
        const keys: string[] = Object.keys(categories);
        const flaggedCategories = keys.filter(
          (key: string) => categories[key as keyof typeof categories]);
        return NextResponse.json(
          { error: `Content flagged as inappropriate: ${flaggedCategories.join(', ')}` },
          { status: 400 });
      }
      const instructions: string = '...';
      const response = await client.responses.create({ model: MODEL, instructions, input });
      if (response.status !== 'completed') {
        throw new Error(`Responses API error: ${response.status}`);
      }
      return NextResponse.json({
        response: response.output_text || 'Response recieved',
        originalInput: input,
        remainingRequests: ServerRateLimiter.getRemaining(ip),
      });
    } catch (error) {
      const errorMessage = error instanceof Error ? error.message : 'OpenAI failed';
      return NextResponse.json({ error: errorMessage }, { status: 500 });
    }
  }
  \<close>
  What the handler reads from outside is data of the model. The request carries the
  two headers (\<open>None\<close> when absent) and what \<^verbatim>\<open>await request.json()\<close> followed by the
  destructuring of \<^verbatim>\<open>input\<close> yields: a thrown value, or the value of \<^verbatim>\<open>input\<close>. The
  environment carries the API key and the two upstream calls as functions from the
  submitted \<^verbatim>\<open>input\<close> to what the awaited call yields: a thrown value, or the first
  moderation result (\<^verbatim>\<open>results[0]\<close>, which the service returns for the one input),
  respectively the response object. The handler returns the HTTP
  response, the limiter store it leaves behind and the upstream calls it made, in order.
  The clock is read twice: \<open>now\<close> in \<^verbatim>\<open>checkLimit\<close>, \<open>now'\<close> in \<^verbatim>\<open>getRemaining\<close>.
\<close>

record request =
  x_forwarded_for :: "string option"
  x_real_ip :: "string option"
  json_input :: "thrown + input_value"

record moderation =
  flagged :: bool
  categories :: "(string \<times> bool) list"

record completion =
  completion_status :: string
  output_text :: string

record environment =
  OPENAI_API_KEY :: "string option"
  moderations_create :: "input_value \<Rightarrow> thrown + moderation"
  responses_create :: "input_value \<Rightarrow> thrown + completion"

datatype upstream_call = ModerationCall input_value | CompletionCall input_value

datatype response_body =
    ErrorBody string
  | AnswerBody string input_value int

record http_response =
  status :: nat
  body :: response_body

record handler_result =
  response :: http_response
  limiter :: store
  upstream :: "upstream_call list"

definition client_ip :: "request \<Rightarrow> string" where
  "client_ip req =
     (case x_forwarded_for req of
        Some a \<Rightarrow> if a \<noteq> [] then a
                  else (case x_real_ip req of
                          Some b \<Rightarrow> if b \<noteq> [] then b else ''unknown''
                        | None \<Rightarrow> ''unknown'')
      | None \<Rightarrow> (case x_real_ip req of
                   Some b \<Rightarrow> if b \<noteq> [] then b else ''unknown''
                 | None \<Rightarrow> ''unknown''))"

text \<open>The \<^verbatim>\<open>catch\<close> block.\<close>

definition caught :: "thrown \<Rightarrow> http_response" where
  "caught error =
     \<lparr>status = 500,
      body = ErrorBody (case error of
                          ErrorInstance e \<Rightarrow> message e
                        | NotAnError \<Rightarrow> ''OpenAI failed'')\<rparr>"

definition flaggedCategories :: "(string \<times> bool) list \<Rightarrow> string list" where
  "flaggedCategories cats = map fst (filter snd cats)"

definition POST ::
  "config \<Rightarrow> (string \<Rightarrow> bool) list \<Rightarrow> (string \<Rightarrow> bool) list \<Rightarrow> environment
     \<Rightarrow> int \<Rightarrow> int \<Rightarrow> request \<Rightarrow> store \<Rightarrow> handler_result" where
  "POST cfg suspiciousPatterns spamPatterns env now now' req s =
     (let ip = client_ip req;
          (allowed, s1) = checkLimit cfg now ip s
      in if \<not> allowed then
           \<lparr>response = \<lparr>status = 429,
                         body = ErrorBody ''Rate limit exceeded. Please try again later.''\<rparr>,
            limiter = s1, upstream = []\<rparr>
         else
           (case json_input req of
              Inl error \<Rightarrow> \<lparr>response = caught error, limiter = s1, upstream = []\<rparr>
            | Inr input \<Rightarrow>
                (case validateText suspiciousPatterns spamPatterns input 2000 of
                   Inl error \<Rightarrow> \<lparr>response = caught error, limiter = s1, upstream = []\<rparr>
                 | Inr (Invalid msg) \<Rightarrow>
                     \<lparr>response = \<lparr>status = 400, body = ErrorBody msg\<rparr>,
                      limiter = s1, upstream = []\<rparr>
                 | Inr Valid \<Rightarrow>
                     if OPENAI_API_KEY env = None \<or> OPENAI_API_KEY env = Some [] then
                       \<lparr>response =
                          \<lparr>status = 500,
                           body = ErrorBody ''Translation service temporarily unavailable''\<rparr>,
                        limiter = s1, upstream = []\<rparr>
                     else
                       (case moderations_create env input of
                          Inl error \<Rightarrow>
                            \<lparr>response = caught error, limiter = s1,
                             upstream = [ModerationCall input]\<rparr>
                        | Inr m \<Rightarrow>
                            if flagged m then
                              \<lparr>response =
                                 \<lparr>status = 400,
                                  body = ErrorBody (''Content flagged as inappropriate: ''
                                           @ array_join '', '' (flaggedCategories (categories m)))\<rparr>,
                               limiter = s1, upstream = [ModerationCall input]\<rparr>
                            else
                              (case responses_create env input of
                                 Inl error \<Rightarrow>
                                   \<lparr>response = caught error, limiter = s1,
                                    upstream = [ModerationCall input, CompletionCall input]\<rparr>
                               | Inr r \<Rightarrow>
                                   if completion_status r \<noteq> ''completed'' then
                                     \<lparr>response = caught (ErrorInstance
                                         (Error (''Responses API error: '' @ completion_status r))),
                                      limiter = s1,
                                      upstream = [ModerationCall input, CompletionCall input]\<rparr>
                                   else
                                     \<lparr>response =
                                        \<lparr>status = 200,
                                         body = AnswerBody
                                           (if output_text r \<noteq> [] then output_text r
                                            else ''Response recieved'')
                                           input (getRemaining cfg now' ip s1)\<rparr>,
                                      limiter = s1,
                                      upstream = [ModerationCall input, CompletionCall input]\<rparr>)))))"

section \<open>Auxiliary notions for reading a serialisation back\<close>

text \<open>
  These are not part of the program. They state that a serialised value can be read
  back from the front of a string in one way only, which is what makes the key
  determine the parameters. \<open>no_digit_ahead r\<close>: the rest \<open>r\<close> does not continue a
  decimal numeral. \<open>parses_uniquely f x\<close>: a string that starts with \<open>f x\<close> and goes
  on with such a rest starts with no other \<open>f y\<close>.
\<close>

definition no_digit_ahead :: "string \<Rightarrow> bool" where
  "no_digit_ahead r = (r = [] \<or> hd r \<notin> set ''0123456789'')"





section \<open>Properties of the server limiter\<close>

lemma final_store_append:
  "final_store cfg ip (ts @ us) s = final_store cfg ip us (final_store cfg ip ts s)"
  by (induction ts arbitrary: s) simp_all

lemma answers_append:
  "answers cfg ip (ts @ us) s =
     answers cfg ip ts s @ answers cfg ip us (final_store cfg ip ts s)"
  by (induction ts arbitrary: s) simp_all

text \<open>A denial never touches the store.\<close>

lemma checkLimit_deny_unchanged:
  "fst (checkLimit cfg now ip s) = False \<Longrightarrow> snd (checkLimit cfg now ip s) = s"
  by (auto simp: checkLimit_def split: option.splits if_splits)

text \<open>
  Inside a live window with room left (\<open>count < MAX_REQUESTS\<close>), a run of \<open>n\<close> calls
  that does not exceed the room is allowed throughout and adds \<open>n\<close> to the count.
\<close>

lemma live_run_allows:
  assumes "s ip = Some e"
    and "\<forall>t \<in> set ts. t \<le> resetTime e"
    and "count e + int (length ts) \<le> MAX_REQUESTS cfg"
  shows "answers cfg ip ts s = replicate (length ts) True \<and>
         final_store cfg ip ts s = s(ip \<mapsto> e\<lparr>count := count e + int (length ts)\<rparr>)"
  using assms
proof (induction ts arbitrary: s e)
  case Nil
  then show ?case by (simp add: fun_upd_idem)
next
  case (Cons t ts)
  let ?e' = "e\<lparr>count := count e + 1\<rparr>"
  have step: "checkLimit cfg t ip s = (True, s(ip \<mapsto> ?e'))"
    using Cons.prems by (simp add: checkLimit_def)
  have "answers cfg ip ts (s(ip \<mapsto> ?e')) = replicate (length ts) True \<and>
        final_store cfg ip ts (s(ip \<mapsto> ?e')) =
          (s(ip \<mapsto> ?e'))(ip \<mapsto> ?e'\<lparr>count := count ?e' + int (length ts)\<rparr>)"
    using Cons.prems by (intro Cons.IH) simp_all
  with step show ?case by (simp add: add.assoc)
qed

text \<open>
  The full run of one window: the call that opens it, the calls that use up the quota,
  and one call more.
\<close>

lemma quota_run:
  assumes "1 \<le> MAX_REQUESTS cfg"
    and "s ip = None"
    and "int (length ts) + 1 = MAX_REQUESTS cfg"
    and "\<forall>u \<in> set ts. u \<le> t0 + STORAGE_WINDOW_MS cfg"
    and "t \<le> t0 + STORAGE_WINDOW_MS cfg"
  shows "answers cfg ip (t0 # ts @ [t]) s = replicate (nat (MAX_REQUESTS cfg)) True @ [False] \<and>
         final_store cfg ip (t0 # ts @ [t]) s = final_store cfg ip (t0 # ts) s \<and>
         final_store cfg ip (t0 # ts @ [t]) s ip =
           Some \<lparr>count = MAX_REQUESTS cfg, resetTime = t0 + STORAGE_WINDOW_MS cfg\<rparr>"
proof -
  let ?e = "\<lparr>count = 1, resetTime = t0 + STORAGE_WINDOW_MS cfg\<rparr>"
  let ?s1 = "s(ip \<mapsto> ?e)"
  let ?full = "\<lparr>count = MAX_REQUESTS cfg, resetTime = t0 + STORAGE_WINDOW_MS cfg\<rparr>"
  have first: "checkLimit cfg t0 ip s = (True, ?s1)"
    using assms(2) by (simp add: checkLimit_def)
  have run: "answers cfg ip ts ?s1 = replicate (length ts) True \<and>
             final_store cfg ip ts ?s1 = ?s1(ip \<mapsto> ?e\<lparr>count := count ?e + int (length ts)\<rparr>)"
    using assms(3,4) by (intro live_run_allows) simp_all
  have full: "?e\<lparr>count := count ?e + int (length ts)\<rparr> = ?full"
    using assms(3) by simp
  have s2: "final_store cfg ip ts ?s1 = s(ip \<mapsto> ?full)"
    using run full by simp
  have last: "checkLimit cfg t ip (s(ip \<mapsto> ?full)) = (False, s(ip \<mapsto> ?full))"
    using assms(5) by (simp add: checkLimit_def)
  have len: "Suc (length ts) = nat (MAX_REQUESTS cfg)"
    using assms(3) by linarith
  have a: "answers cfg ip (t0 # ts @ [t]) s = replicate (nat (MAX_REQUESTS cfg)) True @ [False]"
    using first run s2 last len
    by (simp add: answers_append flip: replicate_Suc)
  have b: "final_store cfg ip (t0 # ts @ [t]) s = final_store cfg ip (t0 # ts) s"
    using first s2 last by (simp add: final_store_append)
  have c: "final_store cfg ip (t0 # ts) s ip = Some ?full"
    using first s2 by simp
  from a b c show ?thesis by simp
qed

text \<open>
  C1. Let the quota be at least one and let the key \<open>ip\<close> have no entry. The first call,
  at time \<open>t0\<close>, opens a window that the code keeps alive up to and including
  \<open>t0 + STORAGE_WINDOW_MS\<close>. If \<open>MAX_REQUESTS\<close> calls in all (the first one and those
  at the times \<open>ts\<close>) are followed by one more call at time \<open>t\<close>, every call inside that
  window, then the first \<open>MAX_REQUESTS\<close> answers are \<open>True\<close>, the last answer is
  \<open>False\<close>, and the denied call leaves the store as it found it: the entry still has
  \<open>count = MAX_REQUESTS\<close> and the \<open>resetTime\<close> set by the first call.
\<close>

theorem quota_then_deny:
  assumes "1 \<le> MAX_REQUESTS cfg"
    and "s ip = None"
    and "int (length ts) + 1 = MAX_REQUESTS cfg"
    and "\<forall>u \<in> set ts. u \<le> t0 + STORAGE_WINDOW_MS cfg"
    and "t \<le> t0 + STORAGE_WINDOW_MS cfg"
  shows "answers cfg ip (t0 # ts @ [t]) s = replicate (nat (MAX_REQUESTS cfg)) True @ [False] \<and>
         final_store cfg ip (t0 # ts @ [t]) s = final_store cfg ip (t0 # ts) s \<and>
         final_store cfg ip (t0 # ts @ [t]) s ip =
           Some \<lparr>count = MAX_REQUESTS cfg, resetTime = t0 + STORAGE_WINDOW_MS cfg\<rparr>"
  using assms by (rule quota_run)

theorem quota_then_deny_witness:
  "answers \<lparr>MAX_REQUESTS = 3, STORAGE_WINDOW_MS = 60000\<rparr> ''203.0.113.7''
     [1000, 1500, 61000, 61000] Map.empty = [True, True, True, False] \<and>
   final_store \<lparr>MAX_REQUESTS = 3, STORAGE_WINDOW_MS = 60000\<rparr> ''203.0.113.7''
     [1000, 1500, 61000, 61000] Map.empty ''203.0.113.7'' =
     Some \<lparr>count = 3, resetTime = 61000\<rparr>"
  using quota_then_deny [of "\<lparr>MAX_REQUESTS = 3, STORAGE_WINDOW_MS = 60000\<rparr>"
      Map.empty "''203.0.113.7''" "[1500, 61000]" 1000 61000]
  by (simp add: checkLimit_def)

text \<open>
  While every call of a run falls inside the live window of the entry, the entry keeps
  its \<open>resetTime\<close> and its count never goes down.
\<close>

lemma live_run_entry:
  assumes "s ip = Some e"
    and "\<forall>t \<in> set ts. t \<le> resetTime e"
  shows "\<exists>e'. final_store cfg ip ts s ip = Some e' \<and> resetTime e' = resetTime e \<and>
              count e \<le> count e'"
  using assms
proof (induction ts arbitrary: s e)
  case Nil
  then show ?case by simp
next
  case (Cons t ts)
  let ?s' = "snd (checkLimit cfg t ip s)"
  have "\<exists>e1. ?s' ip = Some e1 \<and> resetTime e1 = resetTime e \<and> count e \<le> count e1"
    using Cons.prems by (simp add: checkLimit_def)
  then obtain e1 where e1: "?s' ip = Some e1" "resetTime e1 = resetTime e" "count e \<le> count e1"
    by blast
  have "\<exists>e'. final_store cfg ip ts ?s' ip = Some e' \<and> resetTime e' = resetTime e1 \<and>
             count e1 \<le> count e'"
    using e1 Cons.prems by (intro Cons.IH) simp_all
  with e1 show ?case by auto
qed

lemma getRemaining_live:
  "s ip = Some e \<Longrightarrow> now \<le> resetTime e \<Longrightarrow>
   getRemaining cfg now ip s = max 0 (MAX_REQUESTS cfg - count e)"
  by (simp add: getRemaining_def)

lemma getRemaining_expired:
  "s ip = Some e \<Longrightarrow> now > resetTime e \<Longrightarrow> getRemaining cfg now ip s = MAX_REQUESTS cfg"
  by (simp add: getRemaining_def)

text \<open>
  The periodic sweep is invisible to the limiter: a sweep at a time \<open>t\<close> not after
  \<open>now\<close> removes only entries that \<^verbatim>\<open>checkLimit\<close> and \<^verbatim>\<open>getRemaining\<close> at \<open>now\<close>
  treat as expired anyway.
\<close>

lemma cleanup_invisible:
  assumes "t \<le> now"
  shows "fst (checkLimit cfg now ip (cleanup t s)) = fst (checkLimit cfg now ip s) \<and>
         snd (checkLimit cfg now ip (cleanup t s)) ip = snd (checkLimit cfg now ip s) ip \<and>
         getRemaining cfg now ip (cleanup t s) = getRemaining cfg now ip s"
  using assms
  by (auto simp: checkLimit_def getRemaining_def cleanup_def split: option.splits)

text \<open>
  C6 as stated puts the boundary at \<open>now \<ge> resetTime\<close>. The code tests
  \<^verbatim>\<open>now > entry.resetTime\<close>: at \<open>now = resetTime\<close> the entry is still live. With quota
  5 and an entry \<open>(count = 1, resetTime = 61000)\<close>, a call at \<open>now = 61000\<close> increments the
  entry instead of replacing it and \<^verbatim>\<open>getRemaining\<close> reports 4, not 5; with the count
  already at 5 the call at \<open>now = 61000\<close> is denied.
\<close>

theorem expired_at_resetTime_counterexample:
  "checkLimit \<lparr>MAX_REQUESTS = 5, STORAGE_WINDOW_MS = 60000\<rparr> 61000 ''203.0.113.7''
     [''203.0.113.7'' \<mapsto> \<lparr>count = 1, resetTime = 61000\<rparr>] =
     (True, [''203.0.113.7'' \<mapsto> \<lparr>count = 2, resetTime = 61000\<rparr>]) \<and>
   getRemaining \<lparr>MAX_REQUESTS = 5, STORAGE_WINDOW_MS = 60000\<rparr> 61000 ''203.0.113.7''
     [''203.0.113.7'' \<mapsto> \<lparr>count = 1, resetTime = 61000\<rparr>] = 4 \<and>
   fst (checkLimit \<lparr>MAX_REQUESTS = 5, STORAGE_WINDOW_MS = 60000\<rparr> 61000 ''203.0.113.7''
     [''203.0.113.7'' \<mapsto> \<lparr>count = 5, resetTime = 61000\<rparr>]) = False"
  by (simp add: checkLimit_def getRemaining_def)

text \<open>
  C6, amended: an entry is expired exactly when \<open>now > resetTime\<close>. At such a time
  \<^verbatim>\<open>checkLimit\<close> replaces the entry with a fresh one (\<open>count = 1\<close>, a new
  \<open>resetTime = now + STORAGE_WINDOW_MS\<close>) and allows the request, and
  \<^verbatim>\<open>getRemaining\<close> returns the full quota. At any \<open>now \<le> resetTime\<close> the entry is
  live: \<^verbatim>\<open>checkLimit\<close> keeps its \<open>resetTime\<close> and either denies (count at the quota)
  or increments the count, and \<^verbatim>\<open>getRemaining\<close> returns \<open>max 0 (MAX_REQUESTS - count)\<close>.
\<close>

theorem expired_iff_after_resetTime:
  assumes "s ip = Some e"
  shows "(now > resetTime e \<longrightarrow>
            checkLimit cfg now ip s =
              (True, s(ip \<mapsto> \<lparr>count = 1, resetTime = now + STORAGE_WINDOW_MS cfg\<rparr>)) \<and>
            getRemaining cfg now ip s = MAX_REQUESTS cfg) \<and>
         (now \<le> resetTime e \<longrightarrow>
            checkLimit cfg now ip s =
              (if count e \<ge> MAX_REQUESTS cfg then (False, s)
               else (True, s(ip \<mapsto> e\<lparr>count := count e + 1\<rparr>))) \<and>
            getRemaining cfg now ip s = max 0 (MAX_REQUESTS cfg - count e))"
  using assms by (simp add: checkLimit_def getRemaining_def)

theorem expired_iff_after_resetTime_witness:
  "checkLimit \<lparr>MAX_REQUESTS = 5, STORAGE_WINDOW_MS = 60000\<rparr> 61001 ''203.0.113.7''
     [''203.0.113.7'' \<mapsto> \<lparr>count = 5, resetTime = 61000\<rparr>] =
     (True, [''203.0.113.7'' \<mapsto> \<lparr>count = 1, resetTime = 121001\<rparr>]) \<and>
   getRemaining \<lparr>MAX_REQUESTS = 5, STORAGE_WINDOW_MS = 60000\<rparr> 61001 ''203.0.113.7''
     [''203.0.113.7'' \<mapsto> \<lparr>count = 5, resetTime = 61000\<rparr>] = 5 \<and>
   checkLimit \<lparr>MAX_REQUESTS = 5, STORAGE_WINDOW_MS = 60000\<rparr> 61000 ''203.0.113.7''
     [''203.0.113.7'' \<mapsto> \<lparr>count = 4, resetTime = 61000\<rparr>] =
     (True, [''203.0.113.7'' \<mapsto> \<lparr>count = 5, resetTime = 61000\<rparr>]) \<and>
   getRemaining \<lparr>MAX_REQUESTS = 5, STORAGE_WINDOW_MS = 60000\<rparr> 61000 ''203.0.113.7''
     [''203.0.113.7'' \<mapsto> \<lparr>count = 4, resetTime = 61000\<rparr>] = 1"
  using expired_iff_after_resetTime [of "[''203.0.113.7'' \<mapsto> \<lparr>count = 5, resetTime = 61000\<rparr>]"
      "''203.0.113.7''" "\<lparr>count = 5, resetTime = 61000\<rparr>" 61001
      "\<lparr>MAX_REQUESTS = 5, STORAGE_WINDOW_MS = 60000\<rparr>"]
    expired_iff_after_resetTime [of "[''203.0.113.7'' \<mapsto> \<lparr>count = 4, resetTime = 61000\<rparr>]"
      "''203.0.113.7''" "\<lparr>count = 4, resetTime = 61000\<rparr>" 61000
      "\<lparr>MAX_REQUESTS = 5, STORAGE_WINDOW_MS = 60000\<rparr>"]
  by simp

lemma getRemaining_first_call:
  assumes "0 \<le> MAX_REQUESTS cfg" and "s ip = None"
  shows "getRemaining cfg now' ip (snd (checkLimit cfg t0 ip s)) \<le> getRemaining cfg now ip s"
  using assms by (simp add: checkLimit_def getRemaining_def)

lemma getRemaining_run_mono:
  assumes "s ip = Some e"
    and "\<forall>t \<in> set ts. t \<le> resetTime e"
    and "now1 \<le> resetTime e" and "now2 \<le> resetTime e"
  shows "getRemaining cfg now2 ip (final_store cfg ip ts s) \<le> getRemaining cfg now1 ip s"
proof -
  obtain e' where e': "final_store cfg ip ts s ip = Some e'" "resetTime e' = resetTime e"
      "count e \<le> count e'"
    using live_run_entry [of s ip e ts cfg] assms(1,2) by blast
  have "getRemaining cfg now2 ip (final_store cfg ip ts s) = max 0 (MAX_REQUESTS cfg - count e')"
    using e' assms(4) by (simp add: getRemaining_live)
  moreover have "getRemaining cfg now1 ip s = max 0 (MAX_REQUESTS cfg - count e)"
    using assms(1,3) by (simp add: getRemaining_live)
  ultimately show ?thesis using e'(3) by simp
qed

text \<open>
  C7. \<^verbatim>\<open>getRemaining\<close> returns the full quota when the key has no entry or the entry has
  expired, and \<open>max 0 (MAX_REQUESTS - count)\<close> for a live entry. Within one window (an
  entry \<open>e\<close> and calls and readings no later than its \<open>resetTime\<close>) the readings taken
  along any run of \<^verbatim>\<open>checkLimit\<close> calls never go up: the reading after the first \<open>j\<close>
  calls is at most the reading after the first \<open>i \<le> j\<close> calls. The first call for a key,
  which opens the window, does not raise the reading either when the quota is not
  negative. Once the window has expired the reading is the full quota again.
\<close>

theorem getRemaining_window:
  assumes "s ip = Some e"
    and "\<forall>t \<in> set ts. t \<le> resetTime e"
    and "i \<le> j" and "j \<le> length ts"
    and "now1 \<le> resetTime e" and "now2 \<le> resetTime e"
    and "now3 > resetTime e"
  shows "getRemaining cfg now ip s' =
           (case s' ip of
              None \<Rightarrow> MAX_REQUESTS cfg
            | Some e' \<Rightarrow> if now \<le> resetTime e' then max 0 (MAX_REQUESTS cfg - count e')
                        else MAX_REQUESTS cfg) \<and>
         getRemaining cfg now2 ip (final_store cfg ip (take j ts) s)
           \<le> getRemaining cfg now1 ip (final_store cfg ip (take i ts) s) \<and>
         getRemaining cfg now3 ip (final_store cfg ip ts s) = MAX_REQUESTS cfg \<and>
         (0 \<le> MAX_REQUESTS cfg \<and> s0 ip = None \<longrightarrow>
           getRemaining cfg now' ip (snd (checkLimit cfg t0 ip s0)) \<le> getRemaining cfg now0 ip s0)"
proof -
  have "value": "getRemaining cfg now ip s' =
           (case s' ip of
              None \<Rightarrow> MAX_REQUESTS cfg
            | Some e' \<Rightarrow> if now \<le> resetTime e' then max 0 (MAX_REQUESTS cfg - count e')
                        else MAX_REQUESTS cfg)"
    by (simp add: getRemaining_def split: option.splits)
  have all_i: "\<forall>t \<in> set (take i ts). t \<le> resetTime e"
    using assms(2) by (meson in_set_takeD)
  obtain ei where ei: "final_store cfg ip (take i ts) s ip = Some ei" "resetTime ei = resetTime e"
    using live_run_entry [of s ip e "take i ts" cfg] assms(1) all_i by blast
  have split_run: "take j ts = take i ts @ drop i (take j ts)"
    using assms(3) by (metis append_take_drop_id min.absorb1 take_take)
  have all_d: "\<forall>t \<in> set (drop i (take j ts)). t \<le> resetTime ei"
    using assms(2) ei(2) by (metis in_set_dropD in_set_takeD)
  have "getRemaining cfg now2 ip
          (final_store cfg ip (drop i (take j ts)) (final_store cfg ip (take i ts) s))
        \<le> getRemaining cfg now1 ip (final_store cfg ip (take i ts) s)"
    using getRemaining_run_mono [of "final_store cfg ip (take i ts) s" ip ei
        "drop i (take j ts)" now1 now2 cfg] ei all_d assms(5,6)
    by simp
  then have mono: "getRemaining cfg now2 ip (final_store cfg ip (take j ts) s)
           \<le> getRemaining cfg now1 ip (final_store cfg ip (take i ts) s)"
    using split_run final_store_append by metis
  obtain e' where "final_store cfg ip ts s ip = Some e'" "resetTime e' = resetTime e"
    using live_run_entry [of s ip e ts cfg] assms(1,2) by blast
  then have reset: "getRemaining cfg now3 ip (final_store cfg ip ts s) = MAX_REQUESTS cfg"
    using assms(7) by (simp add: getRemaining_expired)
  have first: "0 \<le> MAX_REQUESTS cfg \<and> s0 ip = None \<longrightarrow>
           getRemaining cfg now' ip (snd (checkLimit cfg t0 ip s0)) \<le> getRemaining cfg now0 ip s0"
    using getRemaining_first_call by blast
  from "value" mono reset first show ?thesis by blast
qed

theorem getRemaining_window_witness:
  "getRemaining \<lparr>MAX_REQUESTS = 5, STORAGE_WINDOW_MS = 60000\<rparr> 5000 ''203.0.113.7''
     (final_store \<lparr>MAX_REQUESTS = 5, STORAGE_WINDOW_MS = 60000\<rparr> ''203.0.113.7''
        [2000, 3000, 4000] [''203.0.113.7'' \<mapsto> \<lparr>count = 3, resetTime = 61000\<rparr>])
   \<le> getRemaining \<lparr>MAX_REQUESTS = 5, STORAGE_WINDOW_MS = 60000\<rparr> 2500 ''203.0.113.7''
     (final_store \<lparr>MAX_REQUESTS = 5, STORAGE_WINDOW_MS = 60000\<rparr> ''203.0.113.7''
        [2000] [''203.0.113.7'' \<mapsto> \<lparr>count = 3, resetTime = 61000\<rparr>]) \<and>
   getRemaining \<lparr>MAX_REQUESTS = 5, STORAGE_WINDOW_MS = 60000\<rparr> 61001 ''203.0.113.7''
     (final_store \<lparr>MAX_REQUESTS = 5, STORAGE_WINDOW_MS = 60000\<rparr> ''203.0.113.7''
        [2000, 3000, 4000] [''203.0.113.7'' \<mapsto> \<lparr>count = 3, resetTime = 61000\<rparr>]) = 5 \<and>
   getRemaining \<lparr>MAX_REQUESTS = 5, STORAGE_WINDOW_MS = 60000\<rparr> 1500 ''203.0.113.7''
     (snd (checkLimit \<lparr>MAX_REQUESTS = 5, STORAGE_WINDOW_MS = 60000\<rparr> 1000 ''203.0.113.7''
        Map.empty))
   \<le> getRemaining \<lparr>MAX_REQUESTS = 5, STORAGE_WINDOW_MS = 60000\<rparr> 900 ''203.0.113.7'' Map.empty"
proof -
  let ?cfg = "\<lparr>MAX_REQUESTS = 5, STORAGE_WINDOW_MS = 60000\<rparr>"
  let ?s = "[''203.0.113.7'' \<mapsto> \<lparr>count = 3, resetTime = 61000\<rparr>]"
  have tk: "take 3 [2000, 3000, 4000::int] = [2000, 3000, 4000]"
      "take 1 [2000, 3000, 4000::int] = [2000]"
    by simp_all
  show ?thesis
    using getRemaining_window [where s = ?s and ip = "''203.0.113.7''"
        and e = "\<lparr>count = 3, resetTime = 61000\<rparr>" and ts = "[2000, 3000, 4000]"
        and i = 1 and j = 3 and ?now1.0 = 2500 and ?now2.0 = 5000 and ?now3.0 = 61001
        and cfg = ?cfg and ?s0.0 = Map.empty and now' = 1500 and ?t0.0 = 1000
        and ?now0.0 = 900 and now = 900 and s' = Map.empty]
    unfolding tk by (simp add: checkLimit_def getRemaining_def)
qed

section \<open>Server limiter against client limiter\<close>

text \<open>
  The invariant that ties the two stores together inside the first window: the server
  entry counts exactly the timestamps the client holds, and every one of those
  timestamps is still inside the client's sliding window at any time before the
  server's \<open>resetTime\<close>.
\<close>

lemma agree_in_window:
  assumes "s ip = Some e"
    and "getItem_requests ls = L"
    and "count e = int (length L)"
    and "\<forall>x \<in> set L. resetTime e \<le> x + STORAGE_WINDOW_MS cfg"
    and "\<forall>t \<in> set ts. t < resetTime e \<and> resetTime e \<le> t + STORAGE_WINDOW_MS cfg"
  shows "answers cfg ip ts s = client_answers cfg ts ls"
  using assms
proof (induction ts arbitrary: s e ls L)
  case Nil
  then show ?case by simp
next
  case (Cons t ts)
  have keep: "filter (\<lambda>timestamp. t - timestamp < STORAGE_WINDOW_MS cfg) L = L"
    using Cons.prems(4,5) by (auto intro!: filter_True)
  show ?case
  proof (cases "count e \<ge> MAX_REQUESTS cfg")
    case True
    have sv: "checkLimit cfg t ip s = (False, s)"
      using Cons.prems(1,5) True by (simp add: checkLimit_def)
    have cl: "ClientRateLimiter_checkLimit cfg t ls = (False, ls)"
      using Cons.prems(2,3) True keep by (simp add: ClientRateLimiter_checkLimit_def)
    have "answers cfg ip ts s = client_answers cfg ts ls"
      using Cons.prems by (intro Cons.IH [of s e ls L]) simp_all
    with sv cl show ?thesis by simp
  next
    case False
    let ?e' = "e\<lparr>count := count e + 1\<rparr>"
    let ?ls' = "ls(''translation_requests'' \<mapsto> L @ [t])"
    have sv: "checkLimit cfg t ip s = (True, s(ip \<mapsto> ?e'))"
      using Cons.prems(1,5) False by (simp add: checkLimit_def)
    have cl: "ClientRateLimiter_checkLimit cfg t ls = (True, ?ls')"
      using Cons.prems(2,3) False keep by (simp add: ClientRateLimiter_checkLimit_def)
    have "answers cfg ip ts (s(ip \<mapsto> ?e')) = client_answers cfg ts ?ls'"
      using Cons.prems
      by (intro Cons.IH [of "s(ip \<mapsto> ?e')" ?e' ?ls' "L @ [t]"])
        (simp_all add: getItem_requests_def)
    with sv cl show ?thesis by simp
  qed
qed

text \<open>
  C2 as stated fails. The server counts in a fixed window opened by the first request
  and keeps it alive through \<open>now = resetTime\<close>; the client prunes a sliding window of
  timestamps with \<open>now - timestamp < STORAGE_WINDOW_MS\<close>. With quota 2 and a 60000 ms
  window, checks at 0, 59000, 61000 and 62000 are all allowed by the server (the window
  opened at 0 has expired at 61000 and a new one starts), while the client denies the
  fourth (59000 and 61000 are both within 60000 ms of 62000). With quota 1, checks at 0
  and 60000: the server denies the second (its window is still live at
  \<open>now = resetTime\<close>), the client allows it.
\<close>

theorem server_client_differ_counterexample:
  "answers \<lparr>MAX_REQUESTS = 2, STORAGE_WINDOW_MS = 60000\<rparr> ''203.0.113.7''
     [0, 59000, 61000, 62000] Map.empty = [True, True, True, True] \<and>
   client_answers \<lparr>MAX_REQUESTS = 2, STORAGE_WINDOW_MS = 60000\<rparr>
     [0, 59000, 61000, 62000] Map.empty = [True, True, True, False] \<and>
   answers \<lparr>MAX_REQUESTS = 1, STORAGE_WINDOW_MS = 60000\<rparr> ''203.0.113.7''
     [0, 60000] Map.empty = [True, False] \<and>
   client_answers \<lparr>MAX_REQUESTS = 1, STORAGE_WINDOW_MS = 60000\<rparr>
     [0, 60000] Map.empty = [True, True]"
  by (simp add: checkLimit_def ClientRateLimiter_checkLimit_def getItem_requests_def)

text \<open>
  The disagreement does not depend on the values of the two constants: for every quota
  of at least one and every window length that is not negative, \<open>MAX_REQUESTS\<close> checks
  at time 0 followed by one check at time \<open>STORAGE_WINDOW_MS\<close> end with a denial on the
  server and an allowance on the client.
\<close>

lemma client_final_append:
  "client_final cfg (ts @ us) ls = client_final cfg us (client_final cfg ts ls)"
  by (induction ts arbitrary: ls) simp_all

lemma client_answers_append:
  "client_answers cfg (ts @ us) ls =
     client_answers cfg ts ls @ client_answers cfg us (client_final cfg ts ls)"
  by (induction ts arbitrary: ls) simp_all

lemma client_requests_subset:
  "set (getItem_requests (client_final cfg ts ls)) \<subseteq> set (getItem_requests ls) \<union> set ts"
proof (induction ts arbitrary: ls)
  case Nil
  then show ?case by simp
next
  case (Cons t ts)
  have "set (getItem_requests (snd (ClientRateLimiter_checkLimit cfg t ls)))
          \<subseteq> set (getItem_requests ls) \<union> {t}"
    by (auto simp: ClientRateLimiter_checkLimit_def Let_def getItem_requests_def)
  with Cons.IH [of "snd (ClientRateLimiter_checkLimit cfg t ls)"] show ?case by auto
qed

lemma server_client_differ_any_config:
  assumes "1 \<le> MAX_REQUESTS cfg" and "0 \<le> STORAGE_WINDOW_MS cfg"
  shows "last (answers cfg ip (replicate (nat (MAX_REQUESTS cfg)) 0 @ [STORAGE_WINDOW_MS cfg])
                 Map.empty) = False \<and>
         last (client_answers cfg (replicate (nat (MAX_REQUESTS cfg)) 0 @ [STORAGE_WINDOW_MS cfg])
                 Map.empty) = True"
proof -
  let ?n = "nat (MAX_REQUESTS cfg)"
  let ?W = "STORAGE_WINDOW_MS cfg"
  have rep: "replicate ?n (0::int) = 0 # replicate (?n - 1) 0"
    using assms(1) by (cases ?n) simp_all
  have "answers cfg ip (0 # replicate (?n - 1) 0 @ [?W]) Map.empty
          = replicate ?n True @ [False]"
    using quota_run [of cfg Map.empty ip "replicate (?n - 1) 0" 0 ?W] assms by simp
  then have server: "last (answers cfg ip (replicate ?n 0 @ [?W]) Map.empty) = False"
    using rep by simp
  let ?ls = "client_final cfg (replicate ?n 0) Map.empty"
  have "set (getItem_requests ?ls) \<subseteq> {0}"
    using client_requests_subset [of cfg "replicate ?n 0" Map.empty]
    by (auto simp: getItem_requests_def)
  then have "filter (\<lambda>timestamp. ?W - timestamp < ?W) (getItem_requests ?ls) = []"
    by (auto simp: filter_empty_conv)
  then have "fst (ClientRateLimiter_checkLimit cfg ?W ?ls) = True"
    using assms(1) by (simp add: ClientRateLimiter_checkLimit_def)
  then have client: "last (client_answers cfg (replicate ?n 0 @ [?W]) Map.empty) = True"
    by (simp add: client_answers_append)
  from server client show ?thesis by simp
qed

text \<open>
  C2, amended: with a quota of at least one, a key without a server entry and a client
  store without recorded requests, the two limiters give the same answer at every step
  of any sequence of checks whose timestamps all lie in the half-open first window
  \<open>[t0, t0 + STORAGE_WINDOW_MS)\<close>, \<open>t0\<close> being the time of the first check.
\<close>

theorem server_client_agree_first_window:
  assumes "1 \<le> MAX_REQUESTS cfg"
    and "s ip = None"
    and "getItem_requests ls = []"
    and "\<forall>t \<in> set ts. t0 \<le> t \<and> t < t0 + STORAGE_WINDOW_MS cfg"
  shows "answers cfg ip (t0 # ts) s = client_answers cfg (t0 # ts) ls"
proof -
  let ?e = "\<lparr>count = 1, resetTime = t0 + STORAGE_WINDOW_MS cfg\<rparr>"
  let ?ls' = "ls(''translation_requests'' \<mapsto> [t0])"
  have sv: "checkLimit cfg t0 ip s = (True, s(ip \<mapsto> ?e))"
    using assms(2) by (simp add: checkLimit_def)
  have cl: "ClientRateLimiter_checkLimit cfg t0 ls = (True, ?ls')"
    using assms(1,3) by (simp add: ClientRateLimiter_checkLimit_def)
  have "answers cfg ip ts (s(ip \<mapsto> ?e)) = client_answers cfg ts ?ls'"
    using assms(4)
    by (intro agree_in_window [of "s(ip \<mapsto> ?e)" ip ?e ?ls' "[t0]"])
      (simp_all add: getItem_requests_def)
  with sv cl show ?thesis by simp
qed

theorem server_client_agree_first_window_witness:
  "answers \<lparr>MAX_REQUESTS = 2, STORAGE_WINDOW_MS = 60000\<rparr> ''203.0.113.7''
     [1000, 1500, 60999, 2000] Map.empty =
   client_answers \<lparr>MAX_REQUESTS = 2, STORAGE_WINDOW_MS = 60000\<rparr>
     [1000, 1500, 60999, 2000] Map.empty \<and>
   client_answers \<lparr>MAX_REQUESTS = 2, STORAGE_WINDOW_MS = 60000\<rparr>
     [1000, 1500, 60999, 2000] Map.empty = [True, True, False, False]"
  using server_client_agree_first_window [of "\<lparr>MAX_REQUESTS = 2, STORAGE_WINDOW_MS = 60000\<rparr>"
      Map.empty "''203.0.113.7''" Map.empty "[1500, 60999, 2000]" 1000]
  by (simp add: ClientRateLimiter_checkLimit_def getItem_requests_def)

section \<open>Properties of the TTL cache\<close>

lemma cache_step_absent:
  "c k = None \<Longrightarrow> \<not> sets_key k (snd x) \<Longrightarrow> cache_step x c k = None"
proof (cases x)
  case (Pair now op)
  assume "c k = None" and "\<not> sets_key k (snd x)"
  with Pair show ?thesis
    by (cases op)
      (auto simp: ApiCache_set_def ApiCache_get_def ApiCache_delete_def ApiCache_clear_def
        split: option.splits)
qed

lemma absent_stays_absent:
  "c k = None \<Longrightarrow> \<forall>x \<in> set ops. \<not> sets_key k (snd x) \<Longrightarrow> fold cache_step ops c k = None"
proof (induction ops arbitrary: c)
  case Nil
  then show ?case by simp
next
  case (Cons x ops)
  have "cache_step x c k = None"
    using Cons.prems by (intro cache_step_absent) simp_all
  then show ?case using Cons by simp
qed

text \<open>
  C3. With a \<open>ttl\<close> that is not negative (explicit or the default), \<open>set\<close> followed by
  \<open>get\<close> at the same clock reading returns the value stored. A \<open>get\<close> on an entry whose
  age \<open>now - timestamp\<close> exceeds its \<open>ttl\<close> returns absent and deletes the entry; in
  particular this is what happens to the entry written by \<open>set\<close> once more than \<open>ttl\<close>
  has passed. After that \<open>get\<close>, whatever operations follow at whatever times, as long
  as none of them is a \<open>set\<close> on the key, a later \<open>get\<close> of the key returns absent.
  \<open>get\<close> on a key without an entry returns absent and leaves the cache alone.
\<close>

theorem cache_lazy_expiry:
  assumes "c k = Some item"
    and "now - timestamp item > ttl item"
    and "\<forall>x \<in> set ops. \<not> sets_key k (snd x)"
  shows "(0 \<le> n \<longrightarrow>
            ApiCache_get t k (ApiCache_set t k v (Some n) c0) =
              (Some v, ApiCache_set t k v (Some n) c0)) \<and>
         ApiCache_get t k (ApiCache_set t k v None c0) = (Some v, ApiCache_set t k v None c0) \<and>
         (t' - t > n \<longrightarrow>
            ApiCache_get t' k (ApiCache_set t k v (Some n) c0) = (None, c0(k := None))) \<and>
         ApiCache_get now k c = (None, c(k := None)) \<and>
         fst (ApiCache_get now' k (fold cache_step ops (snd (ApiCache_get now k c)))) = None \<and>
         (c1 k = None \<longrightarrow> ApiCache_get now1 k c1 = (None, c1))"
proof -
  have expired: "ApiCache_get now k c = (None, c(k := None))"
    using assms(1,2) by (simp add: ApiCache_get_def)
  have "fold cache_step ops (c(k := None)) k = None"
    using assms(3) by (intro absent_stays_absent) simp_all
  then have gone: "fst (ApiCache_get now' k (fold cache_step ops (snd (ApiCache_get now k c)))) = None"
    using expired by (simp add: ApiCache_get_def)
  show ?thesis
    using expired gone by (simp add: ApiCache_get_def ApiCache_set_def)
qed

theorem cache_lazy_expiry_witness:
  "ApiCache_get 1000 ''/users:'' (ApiCache_set 1000 ''/users:'' (42::nat) (Some 300000) Map.empty) =
     (Some 42, ApiCache_set 1000 ''/users:'' 42 (Some 300000) Map.empty) \<and>
   ApiCache_get 301001 ''/users:'' (ApiCache_set 1000 ''/users:'' (42::nat) (Some 300000) Map.empty) =
     (None, Map.empty) \<and>
   fst (ApiCache_get 301003 ''/users:''
     (fold cache_step [(301002, Get ''/users:''), (301002, Set ''/products:'' 7 None)]
        (snd (ApiCache_get 301001 ''/users:''
           [''/users:'' \<mapsto> \<lparr>data = 42::nat, timestamp = 1000, ttl = 300000\<rparr>])))) = None \<and>
   ApiCache_get 5 ''/users:'' (Map.empty :: nat cache) = (None, Map.empty)"
  using cache_lazy_expiry [where c = "[''/users:'' \<mapsto> \<lparr>data = 42::nat, timestamp = 1000, ttl = 300000\<rparr>]"
      and k = "''/users:''" and item = "\<lparr>data = 42::nat, timestamp = 1000, ttl = 300000\<rparr>"
      and now = 301001 and now' = 301003
      and ops = "[(301002, Get ''/users:''), (301002, Set ''/products:'' 7 None)]"
      and n = 300000 and t = 1000 and t' = 301001 and v = 42 and ?c0.0 = Map.empty
      and ?c1.0 = Map.empty and ?now1.0 = 5]
  by (simp add: ApiCache_get_def ApiCache_set_def)

section \<open>Properties of the retry wrapper\<close>

lemma backoff_step:
  "a < b \<Longrightarrow> backoff delay a b = (delay * 2 ^ (a - 1)) # backoff delay (Suc a) b"
  by (simp add: backoff_def upt_conv_Cons)

lemma backoff_empty: "backoff delay a a = []"
  by (simp add: backoff_def)

text \<open>
  The loop entered at attempt \<open>a\<close> with \<open>a - 1\<close> invocations behind it, when the
  operation keeps failing up to attempt \<open>n - 1\<close> and succeeds at attempt \<open>n\<close>.
\<close>

lemma retry_loop_success:
  assumes "1 \<le> a" and "a \<le> n" and "int n \<le> maxRetries"
    and "\<forall>k. a \<le> k \<and> k < n \<longrightarrow> is_Rejected (requestFn k)"
    and "requestFn n = Resolved v"
  shows "retry_loop requestFn maxRetries delay (int a) le ws (a - 1) =
           \<lparr>result = Inr v, waits = ws @ backoff delay a n, calls = n\<rparr>"
  using assms
proof (induction "n - a" arbitrary: a le ws)
  case 0
  then have "a = n" by simp
  with 0 show ?case
    by (subst retry_loop.simps) (simp add: backoff_empty)
next
  case (Suc d)
  then have lt: "a < n" by simp
  then obtain x where rej: "requestFn a = Rejected x"
    using Suc.prems(4) by (metis le_refl outcome.collapse(2))
  have Sa: "Suc (a - 1) = a" using Suc.prems(1) by simp
  have IH: "retry_loop requestFn maxRetries delay (int (Suc a)) (Some (toError x))
              (ws @ [delay * 2 ^ (a - 1)]) (Suc a - 1) =
            \<lparr>result = Inr v, waits = (ws @ [delay * 2 ^ (a - 1)]) @ backoff delay (Suc a) n,
             calls = n\<rparr>"
    using Suc.hyps(2) Suc.prems lt by (intro Suc.hyps(1)) simp_all
  have "retry_loop requestFn maxRetries delay (int a) le ws (a - 1) =
          retry_loop requestFn maxRetries delay (int (Suc a)) (Some (toError x))
            (ws @ [delay * 2 ^ (a - 1)]) (Suc a - 1)"
    using lt Suc.prems(3) rej Sa
    by (subst retry_loop.simps) (simp add: nat_diff_distrib' add.commute)
  with IH show ?case
    using lt by (simp add: backoff_step)
qed

text \<open>The same loop when the operation fails at every attempt up to the last one.\<close>

lemma retry_loop_exhausted:
  assumes "1 \<le> a" and "a \<le> m" and "int m = maxRetries"
    and "\<forall>k. a \<le> k \<and> k \<le> m \<longrightarrow> is_Rejected (requestFn k)"
  shows "retry_loop requestFn maxRetries delay (int a) le ws (a - 1) =
           \<lparr>result = Inl (toError (thrown_value (requestFn m))),
            waits = ws @ backoff delay a m, calls = m\<rparr>"
  using assms
proof (induction "m - a" arbitrary: a le ws)
  case 0
  then have am: "a = m" by simp
  then obtain x where "requestFn m = Rejected x"
    using 0 by (metis le_refl outcome.collapse(2))
  with 0 am show ?case
    by (subst retry_loop.simps) (simp add: backoff_empty)
next
  case (Suc d)
  then have lt: "a < m" by simp
  then obtain x where rej: "requestFn a = Rejected x"
    using Suc.prems(4) by (metis le_refl less_imp_le outcome.collapse(2))
  have Sa: "Suc (a - 1) = a" using Suc.prems(1) by simp
  have IH: "retry_loop requestFn maxRetries delay (int (Suc a)) (Some (toError x))
              (ws @ [delay * 2 ^ (a - 1)]) (Suc a - 1) =
            \<lparr>result = Inl (toError (thrown_value (requestFn m))),
             waits = (ws @ [delay * 2 ^ (a - 1)]) @ backoff delay (Suc a) m, calls = m\<rparr>"
    using Suc.hyps(2) Suc.prems lt by (intro Suc.hyps(1)) simp_all
  have "retry_loop requestFn maxRetries delay (int a) le ws (a - 1) =
          retry_loop requestFn maxRetries delay (int (Suc a)) (Some (toError x))
            (ws @ [delay * 2 ^ (a - 1)]) (Suc a - 1)"
    using lt Suc.prems(3) rej Sa
    by (subst retry_loop.simps) (simp add: nat_diff_distrib' add.commute)
  with IH show ?case
    using lt by (simp add: backoff_step)
qed

text \<open>
  C4. If the operation fails on attempts \<open>1 \<dots> n - 1\<close> and succeeds on attempt \<open>n\<close>,
  and \<open>maxRetries \<ge> n\<close>, the wrapper resolves to the success value after \<open>n\<close>
  invocations. If the operation \<open>failing\<close> fails on all \<open>m = maxRetries \<ge> 1\<close> attempts,
  the wrapper rejects with the failure of attempt \<open>m\<close> (the same \<^verbatim>\<open>Error\<close> instance
  when the rejection is one; \<^verbatim>\<open>Error('Unknown error')\<close> when the operation threw
  something else) and resolves to no value. In both cases the waits performed are
  \<open>delay * 2 ^ (i - 1)\<close> after each failed attempt \<open>i\<close> that is followed by another
  attempt: \<open>delay, 2 * delay, 4 * delay, \<dots>\<close>; after the last failed attempt of an
  exhausted run there is no wait (\<open>m - 1\<close> waits for \<open>m\<close> attempts).
\<close>

theorem retryRequest_backoff:
  assumes "1 \<le> n" and "int n \<le> maxRetries"
    and "\<forall>k. 1 \<le> k \<and> k < n \<longrightarrow> is_Rejected (requestFn k)"
    and "requestFn n = Resolved v"
    and "1 \<le> m"
    and "\<forall>k. 1 \<le> k \<and> k \<le> m \<longrightarrow> is_Rejected (failing k)"
  shows "retryRequest requestFn maxRetries delay =
           \<lparr>result = Inr v, waits = map (\<lambda>i. delay * 2 ^ (i - 1)) [1..<n], calls = n\<rparr> \<and>
         retryRequest failing (int m) delay =
           \<lparr>result = Inl (toError (thrown_value (failing m))),
            waits = map (\<lambda>i. delay * 2 ^ (i - 1)) [1..<m], calls = m\<rparr> \<and>
         (failing m = Rejected (ErrorInstance e) \<longrightarrow>
            result (retryRequest failing (int m) delay) = Inl e) \<and>
         length (waits (retryRequest failing (int m) delay)) = m - 1"
proof -
  have ok: "retry_loop requestFn maxRetries delay (int 1) None [] (1 - 1) =
              \<lparr>result = Inr v, waits = [] @ backoff delay 1 n, calls = n\<rparr>"
    using assms(1-4) by (intro retry_loop_success) simp_all
  have ex: "retry_loop failing (int m) delay (int 1) None [] (1 - 1) =
              \<lparr>result = Inl (toError (thrown_value (failing m))),
               waits = [] @ backoff delay 1 m, calls = m\<rparr>"
    using assms(5,6) by (intro retry_loop_exhausted) simp_all
  from ok have a: "retryRequest requestFn maxRetries delay =
           \<lparr>result = Inr v, waits = map (\<lambda>i. delay * 2 ^ (i - 1)) [1..<n], calls = n\<rparr>"
    by (simp add: retryRequest_def backoff_def)
  from ex have b: "retryRequest failing (int m) delay =
           \<lparr>result = Inl (toError (thrown_value (failing m))),
            waits = map (\<lambda>i. delay * 2 ^ (i - 1)) [1..<m], calls = m\<rparr>"
    by (simp add: retryRequest_def backoff_def)
  from a b show ?thesis by simp
qed

theorem retryRequest_backoff_witness:
  "retryRequest (\<lambda>k. if k < 4 then Rejected (ErrorInstance (Error ''HTTP 503'')) else Resolved (7::nat))
     5 1000 = \<lparr>result = Inr 7, waits = [1000, 2000, 4000], calls = 4\<rparr> \<and>
   retryRequest (\<lambda>k. if k < 3 then Rejected NotAnError
                      else (Rejected (ErrorInstance (Error ''HTTP 500'')) :: nat outcome))
     3 1000 = \<lparr>result = Inl (Error ''HTTP 500''), waits = [1000, 2000], calls = 3\<rparr>"
  using retryRequest_backoff [where n = 4 and maxRetries = 5 and delay = 1000 and v = "7::nat"
      and requestFn = "\<lambda>k. if k < 4 then Rejected (ErrorInstance (Error ''HTTP 503'')) else Resolved 7"
      and m = 3 and e = "Error ''HTTP 500''"
      and failing = "\<lambda>k. if k < 3 then Rejected NotAnError
                      else (Rejected (ErrorInstance (Error ''HTTP 500'')) :: nat outcome)"]
  by (simp add: upt_rec numeral_eq_Suc)

text \<open>The invocation counter never goes down along the loop.\<close>

lemma retry_loop_calls_mono:
  "n \<le> calls (retry_loop requestFn maxRetries delay attempt lastError ws n)"
proof (induction requestFn maxRetries delay attempt lastError ws n rule: retry_loop.induct)
  case (1 requestFn maxRetries delay attempt lastError ws n)
  show ?case
  proof (cases "attempt \<le> maxRetries")
    case False
    then show ?thesis by (subst retry_loop.simps) simp
  next
    case True
    show ?thesis
    proof (cases "requestFn (Suc n)")
      case (Resolved v)
      with True show ?thesis by (subst retry_loop.simps) simp
    next
      case (Rejected x)
      show ?thesis
      proof (cases "attempt = maxRetries")
        case True
        with Rejected show ?thesis by (subst retry_loop.simps) simp
      next
        case False
        with True Rejected "1.IH" [of x]
        have "Suc n \<le> calls (retry_loop requestFn maxRetries delay (attempt + 1)
                 (Some (toError x)) (ws @ [delay * 2 ^ nat (attempt - 1)]) (Suc n))"
          by simp
        with True Rejected False show ?thesis
          by (subst retry_loop.simps) simp
      qed
    qed
  qed
qed

text \<open>
  C10. The operation is invoked at least once exactly when \<open>maxRetries \<ge> 1\<close>. With
  \<open>maxRetries \<le> 0\<close> the loop body never runs: no invocation, no wait, and the statement
  after the loop reads \<^verbatim>\<open>.message\<close> of the unassigned \<^verbatim>\<open>lastError\<close>, so the promise
  rejects with the runtime's \<^verbatim>\<open>TypeError\<close> for dereferencing \<^verbatim>\<open>undefined\<close>, not with
  an error of the operation.
\<close>

theorem retryRequest_zero_attempts:
  "(1 \<le> calls (retryRequest requestFn maxRetries delay)) = (1 \<le> maxRetries) \<and>
   (maxRetries \<le> 0 \<longrightarrow>
      retryRequest requestFn maxRetries delay =
        \<lparr>result = Inl undefined_dereference, waits = [], calls = 0\<rparr>)"
proof (cases "1 \<le> maxRetries")
  case False
  then have "retryRequest requestFn maxRetries delay =
        \<lparr>result = Inl undefined_dereference, waits = [], calls = 0\<rparr>"
    unfolding retryRequest_def by (subst retry_loop.simps) simp
  with False show ?thesis by simp
next
  case True
  have "1 \<le> calls (retry_loop requestFn maxRetries delay 1 None [] 0)"
  proof (cases "requestFn (Suc 0)")
    case (Resolved v)
    with True show ?thesis by (subst retry_loop.simps) simp
  next
    case (Rejected x)
    show ?thesis
    proof (cases "1 = maxRetries")
      case True
      with Rejected show ?thesis by (subst retry_loop.simps) simp
    next
      case False
      have "Suc 0 \<le> calls (retry_loop requestFn maxRetries delay (1 + 1) (Some (toError x))
               ([] @ [delay * 2 ^ nat (1 - 1)]) (Suc 0))"
        by (rule retry_loop_calls_mono)
      with True Rejected False show ?thesis
        by (subst retry_loop.simps) simp
    qed
  qed
  with True show ?thesis by (simp add: retryRequest_def)
qed

theorem retryRequest_zero_attempts_witness:
  "retryRequest (\<lambda>k. Resolved (7::nat)) 0 1000 =
     \<lparr>result = Inl (TypeError ''Cannot read properties of undefined''), waits = [], calls = 0\<rparr> \<and>
   calls (retryRequest (\<lambda>k. Resolved (7::nat)) 1 1000) = 1"
proof -
  have "calls (retryRequest (\<lambda>k. Resolved (7::nat)) 1 1000) = 1"
    unfolding retryRequest_def by (subst retry_loop.simps) simp
  then show ?thesis
    using retryRequest_zero_attempts [of "\<lambda>k. Resolved (7::nat)" 0 1000]
    by (simp add: undefined_dereference_def)
qed

section \<open>Properties of the cache key\<close>














lemma no_digit_ahead_Cons: "c \<notin> set ''0123456789'' \<Longrightarrow> no_digit_ahead (c # r)"
  by (simp add: no_digit_ahead_def)



















section \<open>Properties of the question endpoint handler\<close>

lemma POST_limiter:
  "limiter (POST cfg suspiciousPatterns spamPatterns env now now' req s) =
     snd (checkLimit cfg now (client_ip req) s)"
  by (simp add: POST_def Let_def split_beta split: sum.splits validation.splits)

lemma POST_denied:
  assumes "\<not> fst (checkLimit cfg now (client_ip req) s)"
  shows "POST cfg suspiciousPatterns spamPatterns env now now' req s =
           \<lparr>response = \<lparr>status = 429,
                         body = ErrorBody ''Rate limit exceeded. Please try again later.''\<rparr>,
            limiter = s, upstream = []\<rparr>"
proof -
  have "snd (checkLimit cfg now (client_ip req) s) = s"
    using assms by (intro checkLimit_deny_unchanged) simp
  with assms show ?thesis
    by (simp add: POST_def Let_def split_beta)
qed

lemma POST_allowed_status:
  assumes "fst (checkLimit cfg now (client_ip req) s)"
  shows "status (response (POST cfg suspiciousPatterns spamPatterns env now now' req s)) \<noteq> 429"
  using assms
  by (simp add: POST_def Let_def split_beta caught_def split: sum.splits validation.splits)

lemma checkLimit_allowed_count:
  assumes "fst (checkLimit cfg now ip s)"
  shows "map_option count (snd (checkLimit cfg now ip s) ip) =
           Some (case s ip of
                   None \<Rightarrow> 1
                 | Some e \<Rightarrow> if now > resetTime e then 1 else count e + 1)"
  using assms by (auto simp: checkLimit_def split: option.splits if_splits)

text \<open>
  C8. Whenever the moderation result for the submitted input is flagged, the handler
  makes no completion call, whatever else happens in the request. When the request
  gets as far as the moderation check (rate limit passed, input valid, API key set),
  the response is a 400 whose error text is \<^verbatim>\<open>Content flagged as inappropriate: \<close>
  followed by the names of the categories whose flag is true, joined with \<^verbatim>\<open>, \<close>, and
  the moderation call is the only upstream call made.
\<close>

theorem flagged_stops_before_completion:
  assumes "json_input req = Inr input"
    and "moderations_create env input = Inr m"
    and "flagged m"
  shows "CompletionCall x \<notin>
           set (upstream (POST cfg suspiciousPatterns spamPatterns env now now' req s)) \<and>
         (fst (checkLimit cfg now (client_ip req) s) \<and>
          validateText suspiciousPatterns spamPatterns input 2000 = Inr Valid \<and>
          OPENAI_API_KEY env = Some key \<and> key \<noteq> [] \<longrightarrow>
            response (POST cfg suspiciousPatterns spamPatterns env now now' req s) =
              \<lparr>status = 400,
               body = ErrorBody (''Content flagged as inappropriate: ''
                        @ array_join '', '' (map fst (filter snd (categories m))))\<rparr> \<and>
            upstream (POST cfg suspiciousPatterns spamPatterns env now now' req s) =
              [ModerationCall input])"
  using assms
  by (simp add: POST_def Let_def split_beta flaggedCategories_def
      split: sum.splits validation.splits)

theorem flagged_stops_before_completion_witness:
  "POST \<lparr>MAX_REQUESTS = 5, STORAGE_WINDOW_MS = 60000\<rparr>
     (replicate 5 (\<lambda>t. False)) (replicate 3 (\<lambda>t. False))
     \<lparr>OPENAI_API_KEY = Some ''sk-test'',
      moderations_create = (\<lambda>i. Inr \<lparr>flagged = True,
         categories = [(''hate'', True), (''violence'', False), (''harassment'', True)]\<rparr>),
      responses_create = (\<lambda>i. Inr \<lparr>completion_status = ''completed'', output_text = ''Paris''\<rparr>)\<rparr>
     1000 1200
     \<lparr>x_forwarded_for = Some ''203.0.113.7'', x_real_ip = None,
      json_input = Inr (Text ''What is the capital of France?'')\<rparr>
     Map.empty =
   \<lparr>response = \<lparr>status = 400,
                 body = ErrorBody ''Content flagged as inappropriate: hate, harassment''\<rparr>,
    limiter = [''203.0.113.7'' \<mapsto> \<lparr>count = 1, resetTime = 61000\<rparr>],
    upstream = [ModerationCall (Text ''What is the capital of France?'')]\<rparr>"
proof -
  let ?cfg = "\<lparr>MAX_REQUESTS = 5, STORAGE_WINDOW_MS = 60000\<rparr>"
  let ?env = "\<lparr>OPENAI_API_KEY = Some ''sk-test'',
      moderations_create = (\<lambda>i. Inr \<lparr>flagged = True,
         categories = [(''hate'', True), (''violence'', False), (''harassment'', True)]\<rparr>),
      responses_create = (\<lambda>i. Inr \<lparr>completion_status = ''completed'', output_text = ''Paris''\<rparr>)\<rparr>"
  let ?req = "\<lparr>x_forwarded_for = Some ''203.0.113.7'', x_real_ip = None,
      json_input = Inr (Text ''What is the capital of France?'')\<rparr>"
  let ?R = "POST ?cfg (replicate 5 (\<lambda>t. False)) (replicate 3 (\<lambda>t. False)) ?env 1000 1200 ?req
              Map.empty"
  have allowed: "fst (checkLimit ?cfg 1000 (client_ip ?req) Map.empty)"
    by (simp add: checkLimit_def)
  have valid: "validateText (replicate 5 (\<lambda>t. False)) (replicate 3 (\<lambda>t. False))
                 (Text ''What is the capital of France?'') 2000 = Inr Valid"
    by (simp add: validateText_def is_white_space_def numeral_eq_Suc)
  have "response ?R = \<lparr>status = 400,
          body = ErrorBody ''Content flagged as inappropriate: hate, harassment''\<rparr> \<and>
        upstream ?R = [ModerationCall (Text ''What is the capital of France?'')]"
    using flagged_stops_before_completion [where req = ?req and env = ?env
        and input = "Text ''What is the capital of France?''"
        and m = "\<lparr>flagged = True,
              categories = [(''hate'', True), (''violence'', False), (''harassment'', True)]\<rparr>"
        and cfg = ?cfg and now = 1000 and now' = 1200 and s = Map.empty and key = "''sk-test''"
        and suspiciousPatterns = "replicate 5 (\<lambda>t. False)"
        and spamPatterns = "replicate 3 (\<lambda>t. False)"] allowed valid
    by simp
  moreover have "limiter ?R = [''203.0.113.7'' \<mapsto> \<lparr>count = 1, resetTime = 61000\<rparr>]"
    by (simp add: POST_limiter checkLimit_def client_ip_def)
  ultimately show ?thesis
    by (cases ?R) simp
qed

text \<open>
  C9. The limiter store the handler leaves behind is the store left by the
  \<^verbatim>\<open>checkLimit\<close> call made with the caller's address, whatever the body, the
  validation, the API key and the upstream calls turn out to be: the counter is
  updated before the body is read and nothing after the rate-limit check changes it.
  A request that passes the check never gets a 429 and the caller's entry counts one
  request more (one unit in a fresh window when there was no live entry), also when
  the response is a 400 or 500. A request stopped by the check gets the 429, leaves
  the store as it was and makes no upstream call.
\<close>

theorem quota_consumed_before_body:
  "limiter (POST cfg suspiciousPatterns spamPatterns env now now' req s) =
     snd (checkLimit cfg now (client_ip req) s) \<and>
   limiter (POST cfg suspiciousPatterns spamPatterns env' now now'' (req\<lparr>json_input := b\<rparr>) s) =
     limiter (POST cfg suspiciousPatterns spamPatterns env now now' req s) \<and>
   (fst (checkLimit cfg now (client_ip req) s) \<longrightarrow>
      status (response (POST cfg suspiciousPatterns spamPatterns env now now' req s)) \<noteq> 429 \<and>
      map_option count
        (limiter (POST cfg suspiciousPatterns spamPatterns env now now' req s) (client_ip req)) =
        Some (case s (client_ip req) of
                None \<Rightarrow> 1
              | Some e \<Rightarrow> if now > resetTime e then 1 else count e + 1)) \<and>
   (\<not> fst (checkLimit cfg now (client_ip req) s) \<longrightarrow>
      status (response (POST cfg suspiciousPatterns spamPatterns env now now' req s)) = 429 \<and>
      limiter (POST cfg suspiciousPatterns spamPatterns env now now' req s) = s \<and>
      upstream (POST cfg suspiciousPatterns spamPatterns env now now' req s) = [])"
proof -
  have ip: "client_ip (req\<lparr>json_input := b\<rparr>) = client_ip req"
    by (simp add: client_ip_def split: option.splits)
  show ?thesis
    using POST_allowed_status [of cfg now req s suspiciousPatterns spamPatterns env now']
      checkLimit_allowed_count [of cfg now "client_ip req" s]
      POST_denied [of cfg now req s suspiciousPatterns spamPatterns env now']
    by (simp add: POST_limiter ip)
qed

theorem quota_consumed_before_body_witness:
  "POST \<lparr>MAX_REQUESTS = 5, STORAGE_WINDOW_MS = 60000\<rparr>
     (replicate 5 (\<lambda>t. False)) (replicate 3 (\<lambda>t. False))
     \<lparr>OPENAI_API_KEY = Some ''sk-test'',
      moderations_create = (\<lambda>i. Inl NotAnError), responses_create = (\<lambda>i. Inl NotAnError)\<rparr>
     2000 2100
     \<lparr>x_forwarded_for = None, x_real_ip = Some ''203.0.113.7'', json_input = Inr (Text [])\<rparr>
     [''203.0.113.7'' \<mapsto> \<lparr>count = 2, resetTime = 61000\<rparr>] =
   \<lparr>response = \<lparr>status = 400, body = ErrorBody ''Please enter some text to translate''\<rparr>,
    limiter = [''203.0.113.7'' \<mapsto> \<lparr>count = 3, resetTime = 61000\<rparr>],
    upstream = []\<rparr> \<and>
   status (response (POST \<lparr>MAX_REQUESTS = 5, STORAGE_WINDOW_MS = 60000\<rparr>
     (replicate 5 (\<lambda>t. False)) (replicate 3 (\<lambda>t. False))
     \<lparr>OPENAI_API_KEY = Some ''sk-test'',
      moderations_create = (\<lambda>i. Inl NotAnError), responses_create = (\<lambda>i. Inl NotAnError)\<rparr>
     2000 2100
     \<lparr>x_forwarded_for = None, x_real_ip = Some ''203.0.113.7'', json_input = Inr (Text [])\<rparr>
     [''203.0.113.7'' \<mapsto> \<lparr>count = 5, resetTime = 61000\<rparr>])) = 429"
proof -
  let ?cfg = "\<lparr>MAX_REQUESTS = 5, STORAGE_WINDOW_MS = 60000\<rparr>"
  let ?env = "\<lparr>OPENAI_API_KEY = Some ''sk-test'',
      moderations_create = (\<lambda>i. Inl NotAnError), responses_create = (\<lambda>i. Inl NotAnError)\<rparr>"
  let ?req = "\<lparr>x_forwarded_for = None, x_real_ip = Some ''203.0.113.7'',
               json_input = Inr (Text [])\<rparr>"
  let ?full = "[''203.0.113.7'' \<mapsto> \<lparr>count = 5, resetTime = 61000\<rparr>]"
  have denied: "\<not> fst (checkLimit ?cfg 2000 (client_ip ?req) ?full)"
    by (simp add: checkLimit_def client_ip_def)
  have a: "status (response (POST ?cfg (replicate 5 (\<lambda>t. False)) (replicate 3 (\<lambda>t. False))
             ?env 2000 2100 ?req ?full)) = 429"
    using quota_consumed_before_body [where cfg = ?cfg and now = 2000 and req = ?req
        and s = ?full and env = ?env and now' = 2100
        and suspiciousPatterns = "replicate 5 (\<lambda>t. False)"
        and spamPatterns = "replicate 3 (\<lambda>t. False)"] denied
    by blast
  have b: "POST ?cfg (replicate 5 (\<lambda>t. False)) (replicate 3 (\<lambda>t. False)) ?env 2000 2100 ?req
             [''203.0.113.7'' \<mapsto> \<lparr>count = 2, resetTime = 61000\<rparr>] =
           \<lparr>response = \<lparr>status = 400, body = ErrorBody ''Please enter some text to translate''\<rparr>,
            limiter = [''203.0.113.7'' \<mapsto> \<lparr>count = 3, resetTime = 61000\<rparr>],
            upstream = []\<rparr>"
    by (simp add: POST_def checkLimit_def client_ip_def validateText_def)
  from a b show ?thesis by simp
qed

end
